theory Spec2Isabelle
  imports Main "HOL-Library.AList" "HOL-Library.Multiset" "HOL-Library.Product_Lexorder"
    "HOL-Library.Sublist"
begin

section \<open>The sqlite message storage of The Lounge (src/plugins/messageStorage/sqlite.js)\<close>

subsection \<open>JavaScript values and objects\<close>

text \<open>
  Property values are the JavaScript scalars; numbers are the integers (times, row ids,
  message ids and limits are integers in this module). An object is the list of its own
  properties in insertion order; reading a missing property gives \<open>undefined\<close>, writing
  an existing one keeps its place and writing a new one appends it.
\<close>

datatype jsval = JUndefined | JNull | JBool bool | JNum int | JStr string

type_synonym obj = "(string \<times> jsval) list"

definition get_prop :: "obj \<Rightarrow> string \<Rightarrow> jsval" where
  "get_prop ob k = (case map_of ob k of None \<Rightarrow> JUndefined | Some v \<Rightarrow> v)"

definition set_prop :: "string \<Rightarrow> jsval \<Rightarrow> obj \<Rightarrow> obj" where
  "set_prop k v ob = AList.update k v ob"

text \<open>Truthiness of an optional string and of an optional number (\<open>None\<close> is \<open>undefined\<close>).\<close>

definition truthy_str :: "string option \<Rightarrow> bool" where
  "truthy_str s = (case s of None \<Rightarrow> False | Some x \<Rightarrow> x \<noteq> [])"

definition truthy_num :: "int option \<Rightarrow> bool" where
  "truthy_num n = (case n of None \<Rightarrow> False | Some x \<Rightarrow> x \<noteq> 0)"

text \<open>\<open>String.prototype.toLowerCase\<close> on the letters A to Z; every other character is kept.\<close>

definition lower_char :: "char \<Rightarrow> char" where
  "lower_char c =
     (case map_of (zip ''ABCDEFGHIJKLMNOPQRSTUVWXYZ'' ''abcdefghijklmnopqrstuvwxyz'') c of
        None \<Rightarrow> c | Some d \<Rightarrow> d)"

definition toLowerCase :: "string \<Rightarrow> string" where
  "toLowerCase s = map lower_char s"

text \<open>Decimal text of a number, as the database stores a number in a TEXT column.\<close>

fun show_nat :: "nat \<Rightarrow> string" where
  "show_nat n =
     (if n < 10 then [''0123456789'' ! n]
      else show_nat (n div 10) @ [''0123456789'' ! (n mod 10)])"

declare show_nat.simps [simp del]

definition show_int :: "int \<Rightarrow> string" where
  "show_int i = (if i < 0 then CHR ''-'' # show_nat (nat (- i)) else show_nat (nat i))"

text \<open>
  \<open>parseInt(s, 10)\<close>: leading white space is skipped, one sign is accepted, then the
  longest prefix of decimal digits is read; with no digit the result is NaN (\<open>None\<close>).
\<close>

definition digit_val :: "char \<Rightarrow> nat option" where
  "digit_val c = map_of (zip ''0123456789'' [0, 1, 2, 3, 4, 5, 6, 7, 8, 9]) c"

fun read_digits :: "nat \<Rightarrow> string \<Rightarrow> nat" where
  "read_digits acc [] = acc"
| "read_digits acc (c # cs) =
     (case digit_val c of None \<Rightarrow> acc | Some d \<Rightarrow> read_digits (10 * acc + d) cs)"

definition is_space :: "char \<Rightarrow> bool" where
  "is_space c = (c \<in> set [CHR '' '', CHR 0x09, CHR 0x0A, CHR 0x0B, CHR 0x0C, CHR 0x0D])"

definition parse_unsigned :: "string \<Rightarrow> nat option" where
  "parse_unsigned s =
     (case s of [] \<Rightarrow> None
      | c # cs \<Rightarrow> (case digit_val c of None \<Rightarrow> None | Some d \<Rightarrow> Some (read_digits 0 s)))"

definition parseInt :: "string \<Rightarrow> int option" where
  "parseInt s =
     (case dropWhile is_space s of
        [] \<Rightarrow> None
      | c # cs \<Rightarrow>
          if c = CHR ''-'' then map_option (\<lambda>n. - int n) (parse_unsigned cs)
          else if c = CHR ''+'' then map_option int (parse_unsigned cs)
          else map_option int (parse_unsigned (c # cs)))"

text \<open>
  \<open>JSON.stringify\<close> leaves out the properties whose value is \<open>undefined\<close>; the text it
  produces is kept as the object \<open>JSON.parse\<close> gives back for it.
\<close>

type_synonym json = obj

definition JSON_stringify :: "obj \<Rightarrow> json" where
  "JSON_stringify ob = filter (\<lambda>(k, v). v \<noteq> JUndefined) ob"

definition JSON_parse :: "json \<Rightarrow> obj" where
  "JSON_parse j = j"

subsection \<open>The database\<close>

text \<open>
  A row of \<open>messages\<close> with its implicit \<open>rowid\<close>; \<open>options\<close> holds (name, value) pairs;
  \<open>objects\<close> lists the tables and indexes that exist.
\<close>

record row =
  rowid :: int
  network :: string
  channel :: string
  time :: int
  type :: string
  msg :: json

record database =
  objects :: "string list"
  options :: "(string \<times> string) list"
  messages :: "row list"

text \<open>The side effects a caller can observe, in the order they happen.\<close>

datatype event =
    LogError string
  | LogInfo string
  | SetEnabled bool
  | DatabaseClose
  | Callback "string option"

record store =
  isEnabled :: bool
  database :: database
  idMsg :: int
  events :: "event list"

definition emit :: "event \<Rightarrow> store \<Rightarrow> store" where
  "emit e st = st\<lparr>events := events st @ [e]\<rparr>"

text \<open>The domain objects, as far as this module reads them.\<close>

record Network =
  uuid :: string

record Chan =
  name :: string

text \<open>
  A message as \<open>index\<close> receives it: \<open>m_time\<close> is the epoch milliseconds of its Date,
  \<open>m_type\<close> its type tag, \<open>m_props\<close> its other enumerable properties.
\<close>

record message =
  m_time :: int
  m_type :: string
  m_props :: obj

subsection \<open>Schema and lifecycle\<close>

definition currentSchemaVersion :: int where
  "currentSchemaVersion = 1520239200"

text \<open>The four \<open>CREATE ... IF NOT EXISTS\<close> statements, by the name of what each creates.\<close>

definition schema :: "string list" where
  "schema = [''options'', ''messages'', ''network_channel'', ''time'']"

definition run_create :: "string \<Rightarrow> database \<Rightarrow> database" where
  "run_create nm db = (if nm \<in> set (objects db) then db else db\<lparr>objects := objects db @ [nm]\<rparr>)"

text \<open>\<open>SELECT value FROM options WHERE name = 'schema_version'\<close>, first row.\<close>

definition select_schema_version :: "database \<Rightarrow> string option" where
  "select_schema_version db = map_of (options db) ''schema_version''"

definition insert_schema_version :: "int \<Rightarrow> database \<Rightarrow> database" where
  "insert_schema_version v db = db\<lparr>options := options db @ [(''schema_version'', show_int v)]\<rparr>"

definition update_schema_version :: "int \<Rightarrow> database \<Rightarrow> database" where
  "update_schema_version v db =
     db\<lparr>options := map (\<lambda>(n, old). if n = ''schema_version'' then (n, show_int v) else (n, old))
                        (options db)\<rparr>"

text \<open>
  \<open>enable\<close>. \<open>mkdir_ok\<close> says whether \<open>fs.mkdirSync\<close> returned, \<open>get_err\<close> is the error of
  the version query if it failed, \<open>file\<close> is the database found at the client's path.
\<close>

definition enable :: "bool \<Rightarrow> string option \<Rightarrow> database \<Rightarrow> store \<Rightarrow> store" where
  "enable mkdir_ok get_err file st =
     (if \<not> mkdir_ok then emit (LogError ''Unable to create logs directory'') st
      else
        let st1 = st\<lparr>isEnabled := True, database := fold run_create schema file\<rparr> in
        (case get_err of
           Some err \<Rightarrow> emit (LogError ''Failed to retrieve schema version'') st1
         | None \<Rightarrow>
            (case select_schema_version (database st1) of
               None \<Rightarrow>
                 st1\<lparr>database := insert_schema_version currentSchemaVersion (database st1)\<rparr>
             | Some v \<Rightarrow>
                 let storedSchemaVersion = parseInt v in
                 if storedSchemaVersion = Some currentSchemaVersion then st1
                 else if (case storedSchemaVersion of None \<Rightarrow> False
                          | Some n \<Rightarrow> n > currentSchemaVersion)
                 then emit (LogError ''sqlite messages schema version is higher than expected'') st1
                 else
                   (emit (LogInfo ''sqlite messages schema version is out of date'') st1)
                     \<lparr>database := update_schema_version currentSchemaVersion (database st1)\<rparr>)))"

text \<open>
  \<open>close(callback)\<close>. \<open>callback\<close> says whether one was passed, \<open>close_err\<close> is the error
  the handle reports when it has closed, if any.
\<close>

definition close :: "bool \<Rightarrow> string option \<Rightarrow> store \<Rightarrow> store" where
  "close callback close_err st =
     (if \<not> isEnabled st then st
      else
        let st1 = emit (SetEnabled False) (st\<lparr>isEnabled := False\<rparr>);
            st2 = emit DatabaseClose st1;
            st3 = (case close_err of None \<Rightarrow> st2
                   | Some err \<Rightarrow> emit (LogError ''Failed to close sqlite database'') st2)
        in if callback then emit (Callback close_err) st3 else st3)"

definition canProvideMessages :: "store \<Rightarrow> bool" where
  "canProvideMessages st = isEnabled st"

subsection \<open>Write path\<close>

text \<open>A new row gets the largest row id in the table plus one, 1 in an empty table.\<close>

definition next_rowid :: "row list \<Rightarrow> int" where
  "next_rowid rows = fold max (map rowid rows) 0 + 1"

definition insert_message :: "string \<Rightarrow> string \<Rightarrow> int \<Rightarrow> string \<Rightarrow> json \<Rightarrow> database \<Rightarrow> database" where
  "insert_message n c t ty m db =
     db\<lparr>messages := messages db @
        [\<lparr>rowid = next_rowid (messages db), network = n, channel = c, time = t,
          type = ty, msg = m\<rparr>]\<rparr>"

definition index :: "Network \<Rightarrow> Chan \<Rightarrow> message \<Rightarrow> store \<Rightarrow> store" where
  "index net chan m st =
     (if \<not> isEnabled st then st
      else
        let clonedMsg =
              filter (\<lambda>(prop, v). prop \<noteq> ''id'' \<and> prop \<noteq> ''previews'' \<and>
                                   prop \<noteq> ''type'' \<and> prop \<noteq> ''time'') (m_props m)
        in st\<lparr>database :=
                insert_message (uuid net) (toLowerCase (name chan)) (m_time m) (m_type m)
                  (JSON_stringify clonedMsg) (database st)\<rparr>)"

text \<open>\<open>DELETE FROM messages WHERE network = ? AND channel = ?\<close>\<close>

definition in_channel :: "string \<Rightarrow> string \<Rightarrow> row \<Rightarrow> bool" where
  "in_channel n c r = (network r = n \<and> channel r = c)"

definition deleteChannel :: "Network \<Rightarrow> Chan \<Rightarrow> store \<Rightarrow> store" where
  "deleteChannel net chan st =
     (if \<not> isEnabled st then st
      else st\<lparr>database := (database st)\<lparr>messages :=
             filter (\<lambda>r. \<not> in_channel (uuid net) (toLowerCase (name chan)) r)
               (messages (database st))\<rparr>\<rparr>)"

subsection \<open>Read path\<close>

text \<open>Modelled from the spec: the \<open>Msg\<close> class (models/msg) is not in this source file. The
  spec describes a delivered message as the domain object that holds the deserialised
  payload fields and the fields set from the row's columns, so the constructor is taken
  to keep the attributes it is given.
\<close>

definition Msg :: "obj \<Rightarrow> obj" where
  "Msg attr = attr"

text \<open>
  \<open>SELECT msg, type, time FROM messages WHERE network = ? AND channel = ?
  ORDER BY time DESC LIMIT ?\<close>. Rows with equal time come in the order the sort leaves them.
\<close>

definition select_history :: "string \<Rightarrow> string \<Rightarrow> int \<Rightarrow> database \<Rightarrow> row list" where
  "select_history n c limit db =
     take (nat limit) (sort_key (\<lambda>r. - time r) (filter (in_channel n c) (messages db)))"

text \<open>The \<open>map\<close> callback of \<open>getMessages\<close>, threading \<open>client.idMsg++\<close>.\<close>

fun deliver :: "row list \<Rightarrow> int \<Rightarrow> obj list \<times> int" where
  "deliver [] n = ([], n)"
| "deliver (r # rs) n =
     (let m = set_prop ''type'' (JStr (type r))
                (set_prop ''time'' (JNum (time r)) (JSON_parse (msg r)));
          newMsg = set_prop ''id'' (JNum n) (Msg m);
          rest = deliver rs (n + 1)
      in (newMsg # fst rest, snd rest))"

definition getMessages :: "int \<Rightarrow> Network \<Rightarrow> Chan \<Rightarrow> store \<Rightarrow> obj list \<times> store" where
  "getMessages maxHistory net chan st =
     (if \<not> isEnabled st \<or> maxHistory = 0 then ([], st)
      else
        let limit = (if maxHistory < 0 then 100000 else maxHistory);
            rows = select_history (uuid net) (toLowerCase (name chan)) limit (database st);
            out = deliver (rev rows) (idMsg st)
        in (fst out, st\<lparr>idMsg := snd out\<rparr>))"

subsection \<open>Search path\<close>

text \<open>\<open>query.searchTerm.replace(/([%_@])/g, "@$1")\<close>\<close>

definition escape :: "string \<Rightarrow> string" where
  "escape s = concat (map (\<lambda>c. if c \<in> set ''%_@'' then [CHR ''@'', c] else [c]) s)"

text \<open>
  The engine's \<open>text LIKE pattern ESCAPE esc\<close>: \<open>%\<close> matches any run of characters, \<open>_\<close>
  one character, the escape character makes the next pattern character literal, and
  literal characters are compared without regard to the case of the letters A to Z (the
  engine's default).
\<close>

fun sql_like :: "char \<Rightarrow> string \<Rightarrow> string \<Rightarrow> bool" where
  "sql_like esc [] t = (t = [])"
| "sql_like esc (p # ps) t =
     (if p = esc then
        (case ps of [] \<Rightarrow> False
         | q # qs \<Rightarrow>
             (case t of [] \<Rightarrow> False
              | c # cs \<Rightarrow> lower_char q = lower_char c \<and> sql_like esc qs cs))
      else if p = CHR ''%'' then
        (sql_like esc ps t \<or> (case t of [] \<Rightarrow> False | c # cs \<Rightarrow> sql_like esc (p # ps) cs))
      else if p = CHR ''_'' then
        (case t of [] \<Rightarrow> False | c # cs \<Rightarrow> sql_like esc ps cs)
      else
        (case t of [] \<Rightarrow> False
         | c # cs \<Rightarrow> lower_char p = lower_char c \<and> sql_like esc ps cs))"

text \<open>
  \<open>json_extract(msg, "$.text")\<close> as the text \<open>LIKE\<close> compares: NULL (\<open>None\<close>) when the
  property is missing or null, a number or boolean in its decimal text.
\<close>

definition json_extract_text :: "json \<Rightarrow> string option" where
  "json_extract_text j =
     (case map_of j ''text'' of
        None \<Rightarrow> None
      | Some JUndefined \<Rightarrow> None
      | Some JNull \<Rightarrow> None
      | Some (JBool b) \<Rightarrow> Some (if b then ''1'' else ''0'')
      | Some (JNum n) \<Rightarrow> Some (show_int n)
      | Some (JStr s) \<Rightarrow> Some s)"

text \<open>Three-valued comparisons against a bound parameter; \<open>undefined\<close> is bound as NULL.\<close>

definition sql_eq :: "int \<Rightarrow> int option \<Rightarrow> bool option" where
  "sql_eq a p = map_option (\<lambda>b. a = b) p"

definition sql_lt :: "int \<Rightarrow> int option \<Rightarrow> bool option" where
  "sql_lt a p = map_option (\<lambda>b. a < b) p"

fun sql_and :: "bool option \<Rightarrow> bool option \<Rightarrow> bool option" where
  "sql_and (Some False) y = Some False"
| "sql_and x (Some False) = Some False"
| "sql_and (Some True) (Some True) = Some True"
| "sql_and x y = None"

fun sql_or :: "bool option \<Rightarrow> bool option \<Rightarrow> bool option" where
  "sql_or (Some True) y = Some True"
| "sql_or x (Some True) = Some True"
| "sql_or (Some False) (Some False) = Some False"
| "sql_or x y = None"

record response =
  searchTerm :: string
  target :: "string option"
  networkUuid :: "string option"
  lastTime :: jsval
  lastId :: jsval
  results :: "obj list"

record query =
  searchTerm :: string
  networkUuid :: "string option"
  channelName :: "string option"
  lastTime :: "int option"
  lastId :: "int option"

text \<open>The text of the statement and its parameters, as \<open>search\<close> assembles them.\<close>

datatype sqlval = SNull | SInt int | SText string

definition bind_int :: "int option \<Rightarrow> sqlval" where
  "bind_int p = (case p of None \<Rightarrow> SNull | Some n \<Rightarrow> SInt n)"

definition search_select :: "query \<Rightarrow> string" where
  \<open>search_select q =
     ''SELECT rowid, msg, type, time, network, channel FROM messages WHERE type = "message" AND json_extract(msg, "$.text") LIKE ? ESCAPE ''
     @ [CHR 0x27, CHR ''@'', CHR 0x27]
     @ (if truthy_str (query.networkUuid q) then '' AND network = ? '' else [])
     @ (if truthy_str (channelName q) then '' AND channel = ? '' else [])
     @ (if truthy_num (query.lastTime q)
        then '' AND ((time = ? AND rowid < ?) OR time < ?)'' else [])
     @ '' ORDER BY time DESC, rowid DESC''
     @ '' LIMIT ?''\<close>

definition search_params :: "query \<Rightarrow> sqlval list" where
  "search_params q =
     [SText (''%'' @ escape (query.searchTerm q) @ ''%'')]
     @ (if truthy_str (query.networkUuid q) then [SText (the (query.networkUuid q))] else [])
     @ (if truthy_str (channelName q) then [SText (toLowerCase (the (channelName q)))] else [])
     @ (if truthy_num (query.lastTime q)
        then [bind_int (query.lastTime q), bind_int (query.lastId q), bind_int (query.lastTime q)]
        else [])
     @ [SInt 100]"

text \<open>The WHERE clause of that statement on one row.\<close>

definition text_matches :: "string \<Rightarrow> row \<Rightarrow> bool" where
  "text_matches term r =
     (type r = ''message'' \<and>
      (case json_extract_text (msg r) of
         None \<Rightarrow> False
       | Some t \<Rightarrow> sql_like (CHR ''@'') (''%'' @ escape term @ ''%'') t))"

definition in_scope :: "query \<Rightarrow> row \<Rightarrow> bool" where
  "in_scope q r =
     ((if truthy_str (query.networkUuid q) then Some (network r) = query.networkUuid q else True) \<and>
      (if truthy_str (channelName q)
       then Some (channel r) = map_option toLowerCase (channelName q) else True))"

definition before_cursor :: "query \<Rightarrow> row \<Rightarrow> bool" where
  "before_cursor q r =
     (if truthy_num (query.lastTime q)
      then sql_or (sql_and (sql_eq (time r) (query.lastTime q)) (sql_lt (rowid r) (query.lastId q)))
                  (sql_lt (time r) (query.lastTime q)) = Some True
      else True)"

definition search_where :: "query \<Rightarrow> row \<Rightarrow> bool" where
  "search_where q r = (text_matches (query.searchTerm q) r \<and> in_scope q r \<and> before_cursor q r)"

definition search_rows :: "query \<Rightarrow> database \<Rightarrow> row list" where
  "search_rows q db =
     take 100 (sort_key (\<lambda>r. (- time r, - rowid r)) (filter (search_where q) (messages db)))"

text \<open>
  A result row as the JavaScript object the driver hands over: one property for each
  column of the SELECT list, and no other. The \<open>msg\<close> column, a JSON text, is not read
  through this function but as \<open>JSON_parse (msg r)\<close>.
\<close>

definition row_prop :: "row \<Rightarrow> string \<Rightarrow> jsval" where
  "row_prop r k =
     (if k = ''rowid'' then JNum (rowid r)
      else if k = ''time'' then JNum (time r)
      else if k = ''type'' then JStr (type r)
      else if k = ''network'' then JStr (network r)
      else if k = ''channel'' then JStr (channel r)
      else JUndefined)"

definition parseSearchRowsToMessages :: "row list \<Rightarrow> obj list" where
  "parseSearchRowsToMessages rows =
     map (\<lambda>r. Msg (set_prop ''id'' (row_prop r ''id'')
                 (set_prop ''channelName'' (row_prop r ''channel'')
                 (set_prop ''networkUuid'' (row_prop r ''network'')
                 (set_prop ''type'' (row_prop r ''type'')
                 (set_prop ''time'' (row_prop r ''time'') (JSON_parse (msg r)))))))) rows"

text \<open>What the promise of \<open>search\<close> resolves with: an array, or the response object.\<close>

datatype resolved = Array "obj list" | Response response

definition search :: "query \<Rightarrow> store \<Rightarrow> resolved" where
  "search q st =
     (if \<not> isEnabled st then Array []
      else
        let rows = search_rows q (database st);
            results = rev (parseSearchRowsToMessages rows)
        in Response
             \<lparr>response.searchTerm = query.searchTerm q,
              target = channelName q,
              networkUuid = query.networkUuid q,
              lastTime = (case results of [] \<Rightarrow> JNum (- 1) | m # ms \<Rightarrow> get_prop m ''time''),
              lastId = (case results of [] \<Rightarrow> JNum (- 1) | m # ms \<Rightarrow> get_prop m ''rowid''),
              results = results\<rparr>)"

text \<open>The own property names of a resolved value.\<close>

definition own_keys :: "resolved \<Rightarrow> string list" where
  "own_keys v =
     (case v of
        Array xs \<Rightarrow> map show_nat [0..<length xs] @ [''length'']
      | Response r \<Rightarrow> [''searchTerm'', ''target'', ''networkUuid'', ''lastTime'', ''lastId'', ''results''])"

section \<open>Callers and concrete inputs\<close>

text \<open>The six properties of the response object that \<open>search\<close> builds.\<close>

definition response_fields :: "string list" where
  "response_fields = [''searchTerm'', ''target'', ''networkUuid'', ''lastTime'', ''lastId'', ''results'']"

definition r1 :: row where
  "r1 = \<lparr>rowid = 1, network = ''n1'', channel = ''#a'', time = 100, type = ''message'',
          msg = [(''text'', JStr ''hello'')]\<rparr>"

definition r2 :: row where
  "r2 = \<lparr>rowid = 2, network = ''n1'', channel = ''#b'', time = 300, type = ''message'',
          msg = [(''text'', JStr ''world'')]\<rparr>"

definition r3 :: row where
  "r3 = \<lparr>rowid = 3, network = ''n2'', channel = ''#a'', time = 200, type = ''message'',
          msg = [(''text'', JStr ''hello'')]\<rparr>"

definition st3 :: store where
  "st3 = \<lparr>isEnabled = True,
           database = \<lparr>objects = schema, options = [(''schema_version'', ''1520239200'')],
                       messages = [r1, r2, r3]\<rparr>,
           idMsg = 0, events = []\<rparr>"

definition st_off :: store where
  "st_off = \<lparr>isEnabled = False, database = \<lparr>objects = [], options = [], messages = []\<rparr>,
              idMsg = 0, events = []\<rparr>"

definition st_on :: store where
  "st_on = \<lparr>isEnabled = True, database = \<lparr>objects = schema, options = [], messages = []\<rparr>,
             idMsg = 0, events = []\<rparr>"

definition q_hello :: query where
  "q_hello = \<lparr>query.searchTerm = ''hello'', networkUuid = None, channelName = None,
               lastTime = None, lastId = None\<rparr>"

definition q_falsy :: query where
  "q_falsy = \<lparr>query.searchTerm = ''hello'', networkUuid = Some [], channelName = Some [],
               lastTime = Some 0, lastId = Some 7\<rparr>"

text \<open>A database file that has the schema objects and the given options.\<close>

definition file_of :: "(string \<times> string) list \<Rightarrow> database" where
  "file_of opts = \<lparr>objects = schema, options = opts, messages = []\<rparr>"

definition r4 :: row where
  "r4 = \<lparr>rowid = 4, network = ''n1'', channel = ''#a'', time = 300, type = ''message'',
          msg = [(''text'', JStr ''three'')]\<rparr>"

definition r5 :: row where
  "r5 = \<lparr>rowid = 5, network = ''n1'', channel = ''#a'', time = 200, type = ''message'',
          msg = [(''text'', JStr ''two'')]\<rparr>"

definition st_hist :: store where
  "st_hist = \<lparr>isEnabled = True,
               database = \<lparr>objects = schema, options = [], messages = [r1, r4, r5]\<rparr>,
               idMsg = 10, events = []\<rparr>"

text \<open>Two names differ only in letter case: same length, and position by position the same
  character up to the case of a letter.\<close>

definition differ_only_in_case :: "string \<Rightarrow> string \<Rightarrow> bool" where
  "differ_only_in_case a b = list_all2 (\<lambda>x y. lower_char x = lower_char y) a b"

definition m_hi :: message where
  "m_hi = \<lparr>m_time = 100, m_type = ''message'',
            m_props = [(''text'', JStr ''hi''), (''id'', JNum 4), (''self'', JBool False)]\<rparr>"

definition r_hi :: row where
  "r_hi = \<lparr>rowid = 1, network = ''n1'', channel = ''#foo'', time = 100, type = ''message'',
            msg = [(''text'', JStr ''hi''), (''self'', JBool False)]\<rparr>"

definition r_A :: row where
  "r_A = \<lparr>rowid = 1, network = ''n1'', channel = ''#a'', time = 100, type = ''message'',
           msg = [(''text'', JStr ''A'')]\<rparr>"

definition row_with_text :: "string \<Rightarrow> row" where
  "row_with_text t = \<lparr>rowid = 1, network = ''n1'', channel = ''#a'', time = 100, type = ''message'',
           msg = [(''text'', JStr t)]\<rparr>"

text \<open>
  A caller paging through the results: the cursor of each response goes into the next
  query (a cursor value that is not a number is passed as \<open>undefined\<close>), until a response
  carries the cursor (-1, -1). \<open>None\<close> when the given number of calls does not reach it.
\<close>

definition cursor_num :: "jsval \<Rightarrow> int option" where
  "cursor_num v = (case v of JNum n \<Rightarrow> Some n | _ \<Rightarrow> None)"

definition next_query :: "query \<Rightarrow> response \<Rightarrow> query" where
  "next_query q r = q\<lparr>query.lastTime := cursor_num (response.lastTime r),
                       query.lastId := cursor_num (response.lastId r)\<rparr>"

fun paginate :: "nat \<Rightarrow> query \<Rightarrow> store \<Rightarrow> obj list list option" where
  "paginate 0 q st = None"
| "paginate (Suc fuel) q st =
     (case search q st of
        Array xs \<Rightarrow> Some [xs]
      | Response r \<Rightarrow>
          if response.lastTime r = JNum (- 1) \<and> response.lastId r = JNum (- 1)
          then Some [response.results r]
          else map_option (\<lambda>pages. response.results r # pages) (paginate fuel (next_query q r) st))"

definition msg_at :: "int \<Rightarrow> string \<Rightarrow> message" where
  "msg_at t txt = \<lparr>m_time = t, m_type = ''message'', m_props = [(''text'', JStr txt)]\<rparr>"

definition st_example :: store where
  "st_example =
     index \<lparr>uuid = ''n1''\<rparr> \<lparr>name = ''#a''\<rparr> (msg_at 200 ''needle'')
       (index \<lparr>uuid = ''n1''\<rparr> \<lparr>name = ''#a''\<rparr> (msg_at 300 ''three'')
         (index \<lparr>uuid = ''n1''\<rparr> \<lparr>name = ''#a''\<rparr> (msg_at 100 ''one'') st_on))"

definition q_needle :: query where
  "q_needle = \<lparr>query.searchTerm = ''needle'', networkUuid = Some ''n1'', channelName = Some ''#a'',
               lastTime = None, lastId = None\<rparr>"

definition r_needle :: row where
  "r_needle = \<lparr>rowid = 3, network = ''n1'', channel = ''#a'', time = 200, type = ''message'',
          msg = [(''text'', JStr ''needle'')]\<rparr>"

definition same_time_rows :: "row list" where
  "same_time_rows =
     map (\<lambda>i. \<lparr>rowid = int i, network = ''n1'', channel = ''#a'', time = 5, type = ''message'',
               msg = [(''text'', JStr ''hello'')]\<rparr>) [1..<102]"

definition st_same_time :: store where
  "st_same_time = \<lparr>isEnabled = True,
      database = \<lparr>objects = schema, options = [], messages = same_time_rows\<rparr>,
      idMsg = 0, events = []\<rparr>"

section \<open>Properties\<close>

subsection \<open>Auxiliary facts\<close>

lemma lower_hash_A: "toLowerCase ''#A'' = ''#a''"
  by (simp add: toLowerCase_def lower_char_def)

lemma search_rows_cong:
  assumes "query.searchTerm q = query.searchTerm q'" and "in_scope q = in_scope q'"
    and "before_cursor q = before_cursor q'"
  shows "search_rows q db = search_rows q' db"
proof -
  have "search_where q = search_where q'"
    by (rule ext) (simp add: search_where_def assms)
  then show ?thesis by (simp add: search_rows_def)
qed

subsection \<open>deleteChannel\<close>

text \<open>
  C8. On an enabled store \<open>deleteChannel\<close> removes exactly the rows whose network column
  is \<open>network.uuid\<close> and whose channel column is the lowercased \<open>channel.name\<close>; all other
  rows stay, unchanged and in their order, and so do the options and the schema objects.
\<close>

theorem deleteChannel_exact:
  assumes "isEnabled st"
  shows "messages (database (deleteChannel net chan st)) =
           filter (\<lambda>r. \<not> (network r = uuid net \<and> channel r = toLowerCase (name chan)))
             (messages (database st))
         \<and> (\<forall>r \<in> set (messages (database st)).
               (r \<in> set (messages (database (deleteChannel net chan st)))) =
               (network r \<noteq> uuid net \<or> channel r \<noteq> toLowerCase (name chan)))
         \<and> options (database (deleteChannel net chan st)) = options (database st)
         \<and> objects (database (deleteChannel net chan st)) = objects (database st)
         \<and> isEnabled (deleteChannel net chan st)"
  using assms by (auto simp add: deleteChannel_def in_channel_def)

theorem deleteChannel_exact_witness:
  "isEnabled st3 \<and>
   messages (database (deleteChannel \<lparr>uuid = ''n1''\<rparr> \<lparr>name = ''#A''\<rparr> st3)) = [r2, r3]"
  using deleteChannel_exact [of st3 "\<lparr>uuid = ''n1''\<rparr>" "\<lparr>name = ''#A''\<rparr>"]
  by (simp add: st3_def r1_def r2_def r3_def lower_hash_A)

subsection \<open>search on a disabled store\<close>

text \<open>
  C9. On a disabled store \<open>search\<close> resolves with the bare empty array, which has none of
  the six response properties; on an enabled store it always resolves with a response
  object, which has all six.
\<close>

theorem search_disabled_bare_array:
  "(\<not> isEnabled st \<longrightarrow>
      search q st = Array [] \<and> set response_fields \<inter> set (own_keys (search q st)) = {})
   \<and> (isEnabled st \<longrightarrow>
      (\<exists>r. search q st = Response r) \<and> set response_fields \<subseteq> set (own_keys (search q st)))"
  by (simp add: search_def own_keys_def response_fields_def Let_def)

theorem search_disabled_bare_array_witness:
  "\<not> isEnabled st_off \<and> search q_hello st_off = Array []
   \<and> own_keys (search q_hello st_off) = [''length'']
   \<and> isEnabled st_on \<and> own_keys (search q_hello st_on) = response_fields"
  using search_disabled_bare_array [of st_off q_hello] search_disabled_bare_array [of st_on q_hello]
  by (auto simp add: st_off_def st_on_def search_def own_keys_def response_fields_def Let_def)

subsection \<open>Falsy query fields\<close>

text \<open>
  C10. The scoping and paging predicates are applied only for truthy query fields: with a
  falsy \<open>lastTime\<close> (0 or undefined), \<open>networkUuid\<close> or \<open>channelName\<close> (empty or undefined)
  the statement text, its parameters and the rows selected are those of the query with
  that field left out; for \<open>lastTime\<close> the whole response is the same.
\<close>

theorem search_falsy_fields_omitted:
  "(\<not> truthy_num (query.lastTime q) \<longrightarrow>
      search_select q = search_select (q\<lparr>query.lastTime := None\<rparr>) \<and>
      search_params q = search_params (q\<lparr>query.lastTime := None\<rparr>) \<and>
      search_rows q db = search_rows (q\<lparr>query.lastTime := None\<rparr>) db \<and>
      search q st = search (q\<lparr>query.lastTime := None\<rparr>) st)
   \<and> (\<not> truthy_str (query.networkUuid q) \<longrightarrow>
      search_select q = search_select (q\<lparr>query.networkUuid := None\<rparr>) \<and>
      search_params q = search_params (q\<lparr>query.networkUuid := None\<rparr>) \<and>
      search_rows q db = search_rows (q\<lparr>query.networkUuid := None\<rparr>) db)
   \<and> (\<not> truthy_str (channelName q) \<longrightarrow>
      search_select q = search_select (q\<lparr>channelName := None\<rparr>) \<and>
      search_params q = search_params (q\<lparr>channelName := None\<rparr>) \<and>
      search_rows q db = search_rows (q\<lparr>channelName := None\<rparr>) db)"
proof (intro conjI impI)
  assume f: "\<not> truthy_num (query.lastTime q)"
  show "search_select q = search_select (q\<lparr>query.lastTime := None\<rparr>)"
    using f by (simp add: search_select_def truthy_num_def)
  show "search_params q = search_params (q\<lparr>query.lastTime := None\<rparr>)"
    using f by (simp add: search_params_def truthy_num_def)
  show rows: "search_rows q db = search_rows (q\<lparr>query.lastTime := None\<rparr>) db" for db
    using f by (intro search_rows_cong)
      (simp_all add: in_scope_def before_cursor_def truthy_num_def fun_eq_iff)
  show "search q st = search (q\<lparr>query.lastTime := None\<rparr>) st"
    by (simp add: search_def rows [symmetric])
next
  assume f: "\<not> truthy_str (query.networkUuid q)"
  show "search_select q = search_select (q\<lparr>query.networkUuid := None\<rparr>)"
    using f by (simp add: search_select_def truthy_str_def)
  show "search_params q = search_params (q\<lparr>query.networkUuid := None\<rparr>)"
    using f by (simp add: search_params_def truthy_str_def)
  show "search_rows q db = search_rows (q\<lparr>query.networkUuid := None\<rparr>) db"
    using f by (intro search_rows_cong)
      (simp_all add: in_scope_def before_cursor_def truthy_str_def fun_eq_iff)
next
  assume f: "\<not> truthy_str (channelName q)"
  show "search_select q = search_select (q\<lparr>channelName := None\<rparr>)"
    using f by (simp add: search_select_def truthy_str_def)
  show "search_params q = search_params (q\<lparr>channelName := None\<rparr>)"
    using f by (simp add: search_params_def truthy_str_def)
  show "search_rows q db = search_rows (q\<lparr>channelName := None\<rparr>) db"
    using f by (intro search_rows_cong)
      (simp_all add: in_scope_def before_cursor_def truthy_str_def fun_eq_iff)
qed

theorem search_falsy_fields_omitted_witness:
  "\<not> truthy_num (query.lastTime q_falsy) \<and> \<not> truthy_str (query.networkUuid q_falsy)
   \<and> \<not> truthy_str (channelName q_falsy)
   \<and> search_params q_falsy = [SText ''%hello%'', SInt 100]
   \<and> search_params (q_falsy\<lparr>query.lastTime := None\<rparr>) = [SText ''%hello%'', SInt 100]
   \<and> search_params (q_falsy\<lparr>query.networkUuid := None\<rparr>) = [SText ''%hello%'', SInt 100]
   \<and> search_params (q_falsy\<lparr>channelName := None\<rparr>) = [SText ''%hello%'', SInt 100]"
  using search_falsy_fields_omitted [of q_falsy]
  by (simp add: q_falsy_def truthy_num_def truthy_str_def search_params_def escape_def)

subsection \<open>enable: the schema version\<close>

lemma fold_run_create_options [simp]: "options (fold run_create ns db) = options db"
  by (induction ns arbitrary: db) (simp_all add: run_create_def)

lemma fold_run_create_messages [simp]: "messages (fold run_create ns db) = messages db"
  by (induction ns arbitrary: db) (simp_all add: run_create_def)

lemma fold_run_create_present: "set ns \<subseteq> set (objects db) \<Longrightarrow> fold run_create ns db = db"
  by (induction ns arbitrary: db) (simp_all add: run_create_def)

lemma select_after_create [simp]:
  "select_schema_version (fold run_create ns db) = select_schema_version db"
  by (simp add: select_schema_version_def)

lemma select_after_insert:
  "select_schema_version db = None \<Longrightarrow>
   select_schema_version (insert_schema_version v db) = Some (show_int v)"
  by (simp add: select_schema_version_def insert_schema_version_def map_add_def)

lemma map_of_update_value:
  "map_of opts k = Some old \<Longrightarrow>
   map_of (map (\<lambda>(n, old). if n = k then (n, new) else (n, old)) opts) k = Some new"
  by (induction opts) (auto split: if_splits)

lemma select_after_update:
  "select_schema_version db = Some old \<Longrightarrow>
   select_schema_version (update_schema_version v db) = Some (show_int v)"
  by (simp add: select_schema_version_def update_schema_version_def map_of_update_value)

lemma show_current: "show_int currentSchemaVersion = ''1520239200''"
  by (simp add: show_int_def currentSchemaVersion_def show_nat.simps)

lemma parseInt_current: "parseInt ''1520239200'' = Some currentSchemaVersion"
  by (simp add: parseInt_def parse_unsigned_def digit_val_def is_space_def currentSchemaVersion_def)

text \<open>
  C7. When the directory exists and the version query succeeds, \<open>enable\<close> resolves the
  stored schema version in four cases: no version row, the current version is inserted;
  stored equal to current, nothing changes; stored greater than current, an error is
  logged, the database (schema and stored version) is left as it is and the store is
  enabled; stored less than current, the stored version becomes the current one.
\<close>

theorem enable_schema_version_cases:
  assumes "st' = enable True None file st" and "db = fold run_create schema file"
  shows
   "(select_schema_version file = None \<longrightarrow>
       database st' = insert_schema_version currentSchemaVersion db
       \<and> select_schema_version (database st') = Some (show_int currentSchemaVersion)
       \<and> events st' = events st \<and> isEnabled st')
    \<and> (\<forall>v. select_schema_version file = Some v \<and> parseInt v = Some currentSchemaVersion \<longrightarrow>
       database st' = db \<and> events st' = events st \<and> isEnabled st')
    \<and> (\<forall>v n. select_schema_version file = Some v \<and> parseInt v = Some n \<and> n > currentSchemaVersion \<longrightarrow>
       database st' = db \<and> select_schema_version (database st') = Some v
       \<and> (set schema \<subseteq> set (objects file) \<longrightarrow> database st' = file)
       \<and> events st' = events st @ [LogError ''sqlite messages schema version is higher than expected'']
       \<and> isEnabled st' \<and> canProvideMessages st')
    \<and> (\<forall>v n. select_schema_version file = Some v \<and> parseInt v = Some n \<and> n < currentSchemaVersion \<longrightarrow>
       database st' = update_schema_version currentSchemaVersion db
       \<and> select_schema_version (database st') = Some (show_int currentSchemaVersion)
       \<and> isEnabled st')"
proof (intro conjI allI impI)
  assume "select_schema_version file = None"
  then show "database st' = insert_schema_version currentSchemaVersion db"
    and "events st' = events st" and "isEnabled st'"
    using assms by (simp_all add: enable_def Let_def)
  with \<open>select_schema_version file = None\<close>
  show "select_schema_version (database st') = Some (show_int currentSchemaVersion)"
    using assms(2) by (simp add: select_after_insert)
next
  fix v assume "select_schema_version file = Some v \<and> parseInt v = Some currentSchemaVersion"
  then show "database st' = db" and "events st' = events st" and "isEnabled st'"
    using assms by (simp_all add: enable_def Let_def)
next
  fix v n
  assume h: "select_schema_version file = Some v \<and> parseInt v = Some n \<and> n > currentSchemaVersion"
  then show d: "database st' = db" and "isEnabled st'" and "canProvideMessages st'"
    and "events st' = events st @ [LogError ''sqlite messages schema version is higher than expected'']"
    using assms by (simp_all add: enable_def Let_def emit_def canProvideMessages_def)
  show "select_schema_version (database st') = Some v"
    using d h assms(2) by simp
  show "database st' = file" if "set schema \<subseteq> set (objects file)"
    using d assms(2) that by (simp add: fold_run_create_present)
next
  fix v n
  assume h: "select_schema_version file = Some v \<and> parseInt v = Some n \<and> n < currentSchemaVersion"
  then show d: "database st' = update_schema_version currentSchemaVersion db" and "isEnabled st'"
    using assms by (simp_all add: enable_def Let_def emit_def)
  show "select_schema_version (database st') = Some (show_int currentSchemaVersion)"
    using d h assms(2) by (simp add: select_after_update)
qed

theorem enable_schema_version_cases_witness:
  "select_schema_version (file_of []) = None
   \<and> select_schema_version (database (enable True None (file_of []) st_off))
       = Some ''1520239200''
   \<and> parseInt ''1520239200'' = Some currentSchemaVersion
   \<and> database (enable True None (file_of [(''schema_version'', ''1520239200'')]) st_off)
       = file_of [(''schema_version'', ''1520239200'')]
   \<and> parseInt ''1520239201'' = Some 1520239201 \<and> 1520239201 > currentSchemaVersion
   \<and> database (enable True None (file_of [(''schema_version'', ''1520239201'')]) st_off)
       = file_of [(''schema_version'', ''1520239201'')]
   \<and> events (enable True None (file_of [(''schema_version'', ''1520239201'')]) st_off)
       = [LogError ''sqlite messages schema version is higher than expected'']
   \<and> parseInt ''7'' = Some 7 \<and> 7 < currentSchemaVersion
   \<and> select_schema_version (database (enable True None (file_of [(''schema_version'', ''7'')]) st_off))
       = Some ''1520239200''"
proof -
  have p: "parseInt ''1520239201'' = Some 1520239201" "parseInt ''7'' = Some 7"
    by (simp_all add: parseInt_def parse_unsigned_def digit_val_def is_space_def)
  have c: "parseInt ''1520239200'' = Some 1520239200" "show_int 1520239200 = ''1520239200''"
    using parseInt_current show_current by (simp_all add: currentSchemaVersion_def)
  have f: "fold run_create schema (file_of opts) = file_of opts" for opts
    by (simp add: fold_run_create_present file_of_def)
  have s: "select_schema_version (file_of [(''schema_version'', v)]) = Some v" for v
    by (simp add: select_schema_version_def file_of_def)
  have s0: "select_schema_version (file_of []) = None"
    by (simp add: select_schema_version_def file_of_def)
  have e: "events st_off = []"
    by (simp add: st_off_def)
  note t = enable_schema_version_cases [OF refl refl]
  show ?thesis
    using t [of "file_of []" st_off]
      t [of "file_of [(''schema_version'', ''1520239200'')]" st_off]
      t [of "file_of [(''schema_version'', ''1520239201'')]" st_off]
      t [of "file_of [(''schema_version'', ''7'')]" st_off]
    by (simp add: p c f s s0 e currentSchemaVersion_def select_after_insert
         select_after_update [OF s])
qed

subsection \<open>close\<close>

text \<open>
  On a disabled store \<open>close\<close> returns at the guard: a callback that was passed is not
  invoked.
\<close>

theorem close_disabled_no_callback_counterexample:
  "\<not> isEnabled st_off \<and> Callback None \<notin> set (events (close True None st_off))"
  by (simp add: close_def st_off_def)

text \<open>
  C4, as the code has it. On a disabled store \<open>close(callback)\<close> returns at once,
  changes nothing and does not invoke the callback. On an enabled store it clears the
  flag before the handle's close begins, logs a close error, and passes the outcome of
  the close (the error, if any) to the callback when one was passed.
\<close>

theorem close_behaviour:
  "(\<not> isEnabled st \<longrightarrow> close callback close_err st = st)
   \<and> (isEnabled st \<longrightarrow>
        \<not> isEnabled (close callback close_err st)
        \<and> events (close callback close_err st) =
            events st @ [SetEnabled False, DatabaseClose]
              @ (case close_err of None \<Rightarrow> []
                 | Some err \<Rightarrow> [LogError ''Failed to close sqlite database''])
              @ (if callback then [Callback close_err] else []))"
  by (simp add: close_def emit_def Let_def split: option.splits)

theorem close_behaviour_witness:
  "\<not> isEnabled st_off \<and> close True None st_off = st_off
   \<and> isEnabled st_on
   \<and> events (close True (Some ''SQLITE_BUSY'') st_on) =
       [SetEnabled False, DatabaseClose, LogError ''Failed to close sqlite database'',
        Callback (Some ''SQLITE_BUSY'')]"
  using close_behaviour [of st_off True None] close_behaviour [of st_on True "Some ''SQLITE_BUSY''"]
  by (simp add: st_off_def st_on_def)

subsection \<open>getMessages\<close>

lemma get_set_prop: "get_prop (set_prop k v ob) k' = (if k' = k then v else get_prop ob k')"
  by (simp add: get_prop_def set_prop_def update_conv')

lemma deliver_length: "length (fst (deliver rs n)) = length rs"
  by (induction rs arbitrary: n) (simp_all add: Let_def)

lemma deliver_times:
  "map (\<lambda>m. get_prop m ''time'') (fst (deliver rs n)) = map (\<lambda>r. JNum (time r)) rs"
  by (induction rs arbitrary: n) (simp_all add: Let_def get_set_prop Msg_def)

lemma deliver_next_id: "snd (deliver rs n) = n + int (length rs)"
  by (induction rs arbitrary: n) (simp_all add: Let_def)

lemma desc_rev_sorted:
  "sorted (map (\<lambda>r. - time r) xs) \<Longrightarrow> sorted (map time (rev xs))"
  by (simp add: rev_map [symmetric] sorted_wrt_rev sorted_wrt_map
        del: rev_map)

lemma desc_take_drop:
  assumes "sorted (map (\<lambda>r. - time r) xs)" and "a \<in> set (take k xs)" and "b \<in> set (drop k xs)"
  shows "time b \<le> time a"
proof -
  have "sorted (map (\<lambda>r. - time r) (take k xs @ drop k xs))"
    using assms(1) by simp
  then have "\<forall>x \<in> set (take k xs). \<forall>y \<in> set (drop k xs). - time x \<le> - time y"
    unfolding map_append sorted_append by auto
  then show ?thesis using assms(2,3) by auto
qed

lemma select_history_props:
  fixes n c limit db
  defines "matching \<equiv> filter (in_channel n c) (messages db)"
  defines "S \<equiv> sort_key (\<lambda>r. - time r) matching"
  defines "chosen \<equiv> rev (select_history n c limit db)"
  defines "rest \<equiv> drop (nat limit) S"
  shows "mset chosen + mset rest = mset matching"
    and "length chosen = min (nat limit) (length matching)"
    and "\<forall>a \<in> set chosen. \<forall>b \<in> set rest. time b \<le> time a"
    and "sorted (map time chosen)"
proof -
  have sel: "select_history n c limit db = take (nat limit) S"
    by (simp add: select_history_def S_def matching_def)
  have srt: "sorted (map (\<lambda>r. - time r) S)"
    by (simp add: S_def)
  have "mset (take (nat limit) S) + mset (drop (nat limit) S) = mset S"
    by (metis append_take_drop_id mset_append)
  then show "mset chosen + mset rest = mset matching"
    by (simp add: chosen_def rest_def sel S_def)
  show "length chosen = min (nat limit) (length matching)"
    by (simp add: chosen_def sel S_def min.commute)
  show "\<forall>a \<in> set chosen. \<forall>b \<in> set rest. time b \<le> time a"
    using desc_take_drop [OF srt] by (simp add: chosen_def rest_def sel)
  have "sorted (map (\<lambda>r. - time r) (take (nat limit) S))"
    using srt by (simp add: take_map [symmetric] sorted_wrt_take)
  then show "sorted (map time chosen)"
    unfolding chosen_def sel by (rule desc_rev_sorted)
qed

text \<open>
  C5. On an enabled store: with \<open>maxHistory = 0\<close> \<open>getMessages\<close> resolves with the empty
  sequence and leaves the store as it is; with a negative \<open>maxHistory\<close> at most 100000
  messages are returned, otherwise at most \<open>maxHistory\<close>. The rows delivered (\<open>chosen\<close>)
  and the matching rows left out (\<open>rest\<close>) together are the matching rows, as many are
  chosen as the limit allows, no row left out is more recent than a chosen one, and the
  delivered messages carry the times of the chosen rows in ascending order.
\<close>

theorem getMessages_limit_recent_ascending:
  assumes "isEnabled st"
  shows "(maxHistory = 0 \<longrightarrow> getMessages maxHistory net chan st = ([], st))
     \<and> (maxHistory < 0 \<longrightarrow> length (fst (getMessages maxHistory net chan st)) \<le> 100000)
     \<and> (maxHistory > 0 \<longrightarrow> length (fst (getMessages maxHistory net chan st)) \<le> nat maxHistory)
     \<and> (maxHistory \<noteq> 0 \<longrightarrow>
          (\<exists>chosen rest.
             mset chosen + mset rest =
               mset (filter (in_channel (uuid net) (toLowerCase (name chan))) (messages (database st)))
             \<and> length chosen =
                 min (nat (if maxHistory < 0 then 100000 else maxHistory))
                     (length (filter (in_channel (uuid net) (toLowerCase (name chan)))
                                (messages (database st))))
             \<and> (\<forall>a \<in> set chosen. \<forall>b \<in> set rest. time b \<le> time a)
             \<and> sorted (map time chosen)
             \<and> map (\<lambda>m. get_prop m ''time'') (fst (getMessages maxHistory net chan st))
                 = map (\<lambda>r. JNum (time r)) chosen))"
proof (intro conjI impI)
  show "getMessages maxHistory net chan st = ([], st)" if "maxHistory = 0"
    using that by (simp add: getMessages_def)
  show "length (fst (getMessages maxHistory net chan st)) \<le> 100000" if "maxHistory < 0"
    using that assms by (simp add: getMessages_def Let_def deliver_length select_history_def)
  show "length (fst (getMessages maxHistory net chan st)) \<le> nat maxHistory" if "maxHistory > 0"
    using that assms by (simp add: getMessages_def Let_def deliver_length select_history_def)
next
  assume nz: "maxHistory \<noteq> 0"
  define limit where "limit = (if maxHistory < 0 then 100000 else maxHistory)"
  define n where "n = uuid net"
  define c where "c = toLowerCase (name chan)"
  define chosen where "chosen = rev (select_history n c limit (database st))"
  define rest where
    "rest = drop (nat limit) (sort_key (\<lambda>r. - time r) (filter (in_channel n c) (messages (database st))))"
  have out: "fst (getMessages maxHistory net chan st) = fst (deliver chosen (idMsg st))"
    using nz assms by (simp add: getMessages_def Let_def chosen_def limit_def n_def c_def)
  have "mset chosen + mset rest = mset (filter (in_channel n c) (messages (database st)))"
    and "length chosen = min (nat limit) (length (filter (in_channel n c) (messages (database st))))"
    and "\<forall>a \<in> set chosen. \<forall>b \<in> set rest. time b \<le> time a"
    and "sorted (map time chosen)"
    unfolding chosen_def rest_def by (rule select_history_props)+
  moreover have "map (\<lambda>m. get_prop m ''time'') (fst (getMessages maxHistory net chan st))
                 = map (\<lambda>r. JNum (time r)) chosen"
    by (simp only: out deliver_times)
  ultimately show "\<exists>chosen rest.
             mset chosen + mset rest =
               mset (filter (in_channel (uuid net) (toLowerCase (name chan))) (messages (database st)))
             \<and> length chosen =
                 min (nat (if maxHistory < 0 then 100000 else maxHistory))
                     (length (filter (in_channel (uuid net) (toLowerCase (name chan)))
                                (messages (database st))))
             \<and> (\<forall>a \<in> set chosen. \<forall>b \<in> set rest. time b \<le> time a)
             \<and> sorted (map time chosen)
             \<and> map (\<lambda>m. get_prop m ''time'') (fst (getMessages maxHistory net chan st))
                 = map (\<lambda>r. JNum (time r)) chosen"
    unfolding limit_def n_def c_def by blast
qed

theorem getMessages_limit_recent_ascending_witness:
  "isEnabled st_hist
   \<and> getMessages 0 \<lparr>uuid = ''n1''\<rparr> \<lparr>name = ''#A''\<rparr> st_hist = ([], st_hist)
   \<and> map (\<lambda>m. get_prop m ''time'') (fst (getMessages 2 \<lparr>uuid = ''n1''\<rparr> \<lparr>name = ''#A''\<rparr> st_hist))
       = [JNum 200, JNum 300]
   \<and> map (\<lambda>m. get_prop m ''time'') (fst (getMessages (- 1) \<lparr>uuid = ''n1''\<rparr> \<lparr>name = ''#A''\<rparr> st_hist))
       = [JNum 100, JNum 200, JNum 300]"
  using getMessages_limit_recent_ascending [of st_hist 0 "\<lparr>uuid = ''n1''\<rparr>" "\<lparr>name = ''#A''\<rparr>"]
    getMessages_limit_recent_ascending [of st_hist 2 "\<lparr>uuid = ''n1''\<rparr>" "\<lparr>name = ''#A''\<rparr>"]
    getMessages_limit_recent_ascending [of st_hist "- 1" "\<lparr>uuid = ''n1''\<rparr>" "\<lparr>name = ''#A''\<rparr>"]
  by (simp add: st_hist_def r1_def r4_def r5_def getMessages_def select_history_def in_channel_def
        lower_hash_A get_set_prop Msg_def JSON_parse_def Let_def)

subsection \<open>Channel scoping\<close>

lemma differ_only_in_case_iff: "differ_only_in_case a b = (toLowerCase a = toLowerCase b)"
  unfolding differ_only_in_case_def toLowerCase_def
  by (induction a arbitrary: b) (auto simp add: list_all2_Cons1)

lemma index_messages:
  "isEnabled st \<Longrightarrow>
   \<exists>r. messages (database (index net chan m st)) = messages (database st) @ [r]
       \<and> network r = uuid net \<and> channel r = toLowerCase (name chan)
       \<and> time r = m_time m \<and> type r = m_type m
       \<and> rowid r = next_rowid (messages (database st))"
  by (simp add: index_def insert_message_def Let_def)

lemma deliver_mem:
  "r \<in> set rs \<Longrightarrow> \<exists>i. hd (fst (deliver [r] i)) \<in> set (fst (deliver rs n))"
proof (induction rs arbitrary: n)
  case Nil
  then show ?case by simp
next
  case (Cons a rs)
  show ?case
  proof (cases "r = a")
    case True
    then show ?thesis by (intro exI [of _ n]) (simp add: Let_def)
  next
    case False
    with Cons.prems have "r \<in> set rs" by simp
    from Cons.IH [OF this, of "n + 1"] show ?thesis by (auto simp add: Let_def)
  qed
qed

lemma select_history_all:
  assumes "length (filter (in_channel n c) (messages db)) \<le> nat limit"
  shows "set (select_history n c limit db) = set (filter (in_channel n c) (messages db))"
  using assms by (simp add: select_history_def)

lemma lower_Foo:
  "toLowerCase ''#Foo'' = ''#foo''" "toLowerCase ''#foo'' = ''#foo''"
  "toLowerCase ''#FOO'' = ''#foo''"
  by (simp_all add: toLowerCase_def lower_char_def)

lemma index_hi: "index \<lparr>uuid = ''n1''\<rparr> \<lparr>name = ''#Foo''\<rparr> m_hi st_on
    = st_on\<lparr>database := \<lparr>objects = schema, options = [], messages = [r_hi]\<rparr>\<rparr>"
  by (simp add: index_def insert_message_def Let_def m_hi_def r_hi_def st_on_def lower_Foo
        next_rowid_def JSON_stringify_def)

text \<open>
  C6. \<open>index\<close> stores the row \<open>r\<close> under the lowercased channel name. For a channel whose
  name differs from the indexing one only in letter case, and the same network uuid, in
  any later enabled state that still holds \<open>r\<close>: the WHERE clause of \<open>getMessages\<close> and
  \<open>deleteChannel\<close> selects \<open>r\<close>, \<open>deleteChannel\<close> deletes it, \<open>getMessages\<close> delivers its
  message when the limit covers the channel's rows, and the scope of \<open>search\<close> contains
  it. The network is compared exactly: no other uuid selects \<open>r\<close>.
\<close>

theorem channel_scope_case_insensitive:
  assumes "isEnabled st" and "differ_only_in_case (name chan) (name chan')"
    and "uuid net' = uuid net"
    and "r = last (messages (database (index net chan m st)))"
    and "isEnabled st2" and "r \<in> set (messages (database st2))"
  shows "messages (database (index net chan m st)) = messages (database st) @ [r]
     \<and> network r = uuid net \<and> channel r = toLowerCase (name chan)
     \<and> in_channel (uuid net') (toLowerCase (name chan')) r
     \<and> r \<notin> set (messages (database (deleteChannel net' chan' st2)))
     \<and> (maxHistory \<noteq> 0 \<and>
         length (filter (in_channel (uuid net') (toLowerCase (name chan'))) (messages (database st2)))
           \<le> nat (if maxHistory < 0 then 100000 else maxHistory) \<longrightarrow>
         (\<exists>i. hd (fst (deliver [r] i)) \<in> set (fst (getMessages maxHistory net' chan' st2))))
     \<and> in_scope \<lparr>query.searchTerm = term, networkUuid = Some (uuid net'),
                  channelName = Some (name chan'), lastTime = lt, lastId = li\<rparr> r
     \<and> (\<forall>other. uuid other \<noteq> uuid net \<longrightarrow>
           \<not> in_channel (uuid other) (toLowerCase (name chan')) r)"
proof -
  from index_messages [OF assms(1), of net chan m] assms(4)
  have ins: "messages (database (index net chan m st)) = messages (database st) @ [r]"
    and nw: "network r = uuid net" and ch: "channel r = toLowerCase (name chan)"
    by auto
  have low: "toLowerCase (name chan') = toLowerCase (name chan)"
    using assms(2) by (simp add: differ_only_in_case_iff)
  have inch: "in_channel (uuid net') (toLowerCase (name chan')) r"
    by (simp add: in_channel_def nw ch low assms(3))
  have del: "r \<notin> set (messages (database (deleteChannel net' chan' st2)))"
    using assms(5) inch by (simp add: deleteChannel_def)
  have get: "\<exists>i. hd (fst (deliver [r] i)) \<in> set (fst (getMessages maxHistory net' chan' st2))"
    if h: "maxHistory \<noteq> 0 \<and>
         length (filter (in_channel (uuid net') (toLowerCase (name chan'))) (messages (database st2)))
           \<le> nat (if maxHistory < 0 then 100000 else maxHistory)"
  proof -
    let ?lim = "if maxHistory < 0 then 100000 else maxHistory"
    let ?rows = "select_history (uuid net') (toLowerCase (name chan')) ?lim (database st2)"
    have "r \<in> set ?rows"
      using select_history_all [of "uuid net'" "toLowerCase (name chan')" "database st2" ?lim]
        h inch assms(6) by simp
    then have "r \<in> set (rev ?rows)" by simp
    from deliver_mem [OF this, of "idMsg st2"]
    show ?thesis using h assms(5) by (simp add: getMessages_def Let_def)
  qed
  have sc: "in_scope \<lparr>query.searchTerm = term, networkUuid = Some (uuid net'),
                  channelName = Some (name chan'), lastTime = lt, lastId = li\<rparr> r"
    by (simp add: in_scope_def nw ch low assms(3))
  have ex: "\<forall>other. uuid other \<noteq> uuid net \<longrightarrow>
           \<not> in_channel (uuid other) (toLowerCase (name chan')) r"
    by (simp add: in_channel_def nw)
  from ins nw ch inch del get sc ex show ?thesis by blast
qed

theorem channel_scope_case_insensitive_witness:
  "isEnabled st_on \<and> differ_only_in_case ''#Foo'' ''#foo''
   \<and> messages (database (index \<lparr>uuid = ''n1''\<rparr> \<lparr>name = ''#Foo''\<rparr> m_hi st_on)) = [r_hi]
   \<and> map (\<lambda>m. get_prop m ''text'')
        (fst (getMessages 10 \<lparr>uuid = ''n1''\<rparr> \<lparr>name = ''#foo''\<rparr>
               (index \<lparr>uuid = ''n1''\<rparr> \<lparr>name = ''#Foo''\<rparr> m_hi st_on))) = [JStr ''hi'']
   \<and> messages (database (deleteChannel \<lparr>uuid = ''n1''\<rparr> \<lparr>name = ''#FOO''\<rparr>
        (index \<lparr>uuid = ''n1''\<rparr> \<lparr>name = ''#Foo''\<rparr> m_hi st_on))) = []
   \<and> messages (database (deleteChannel \<lparr>uuid = ''N1''\<rparr> \<lparr>name = ''#foo''\<rparr>
        (index \<lparr>uuid = ''n1''\<rparr> \<lparr>name = ''#Foo''\<rparr> m_hi st_on))) = [r_hi]"
proof -
  have d: "differ_only_in_case ''#Foo'' ''#foo''" "differ_only_in_case ''#Foo'' ''#FOO''"
    by (simp_all add: differ_only_in_case_iff lower_Foo)
  let ?st1 = "index \<lparr>uuid = ''n1''\<rparr> \<lparr>name = ''#Foo''\<rparr> m_hi st_on"
  have e: "isEnabled st_on" "isEnabled ?st1"
    by (simp_all add: index_hi) (simp_all add: st_on_def)
  have l: "r_hi = last (messages (database ?st1))" "r_hi \<in> set (messages (database ?st1))"
    by (simp_all add: index_hi)
  show ?thesis
    using channel_scope_case_insensitive [of st_on "\<lparr>name = ''#Foo''\<rparr>" "\<lparr>name = ''#foo''\<rparr>"
        "\<lparr>uuid = ''n1''\<rparr>" "\<lparr>uuid = ''n1''\<rparr>" r_hi m_hi ?st1 10, OF e(1) _ _ l(1) e(2) l(2)]
      channel_scope_case_insensitive [of st_on "\<lparr>name = ''#Foo''\<rparr>" "\<lparr>name = ''#FOO''\<rparr>"
        "\<lparr>uuid = ''n1''\<rparr>" "\<lparr>uuid = ''n1''\<rparr>" r_hi m_hi ?st1 10, OF e(1) _ _ l(1) e(2) l(2)]
    by (simp add: d e index_hi getMessages_def deleteChannel_def select_history_def in_channel_def
          lower_Foo Let_def get_set_prop Msg_def JSON_parse_def)
     (simp add: r_hi_def st_on_def get_set_prop Msg_def JSON_parse_def get_prop_def)
qed

subsection \<open>Escaping the search term\<close>

lemma escape_Nil [simp]: "escape [] = []"
  by (simp add: escape_def)

lemma escape_Cons:
  "escape (c # cs) = (if c \<in> set ''%_@'' then [CHR ''@'', c] else [c]) @ escape cs"
  by (simp add: escape_def)

lemma escape_append: "escape (a @ b) = escape a @ escape b"
  by (simp add: escape_def)

lemma like_escaped_char:
  "sql_like (CHR ''@'') ((if c \<in> set ''%_@'' then [CHR ''@'', c] else [c]) @ ps) t =
     (case t of [] \<Rightarrow> False
      | d # ds \<Rightarrow> lower_char c = lower_char d \<and> sql_like (CHR ''@'') ps ds)"
  by simp

lemma like_escape:
  "sql_like (CHR ''@'') (escape term @ rest) t =
     (\<exists>sub t'. t = sub @ t' \<and> differ_only_in_case term sub \<and> sql_like (CHR ''@'') rest t')"
proof (induction "term" arbitrary: t)
  case Nil
  then show ?case by (simp add: differ_only_in_case_def)
next
  case (Cons c cs)
  show ?case
  proof (cases t)
    case Nil
    then show ?thesis
      by (simp only: escape_Cons append_assoc like_escaped_char)
         (simp add: differ_only_in_case_def)
  next
    case (Cons d ds)
    have "sql_like (CHR ''@'') (escape (c # cs) @ rest) t =
            (lower_char c = lower_char d \<and> sql_like (CHR ''@'') (escape cs @ rest) ds)"
      by (simp only: escape_Cons append_assoc like_escaped_char Cons list.case)
    also have "\<dots> = (lower_char c = lower_char d \<and>
        (\<exists>sub t'. ds = sub @ t' \<and> differ_only_in_case cs sub \<and> sql_like (CHR ''@'') rest t'))"
      by (simp only: Cons.IH)
    also have "\<dots> = (\<exists>sub t'. t = sub @ t' \<and> differ_only_in_case (c # cs) sub
                        \<and> sql_like (CHR ''@'') rest t')"
      unfolding Cons differ_only_in_case_def
      by (auto simp add: list_all2_Cons1 Cons_eq_append_conv)
    finally show ?thesis .
  qed
qed

lemma like_percent:
  "sql_like (CHR ''@'') (CHR ''%'' # ps) t = (\<exists>pre suf. t = pre @ suf \<and> sql_like (CHR ''@'') ps suf)"
proof (induction t)
  case Nil
  then show ?case by simp
next
  case (Cons c cs)
  have "sql_like (CHR ''@'') (CHR ''%'' # ps) (c # cs) =
          (sql_like (CHR ''@'') ps (c # cs) \<or> sql_like (CHR ''@'') (CHR ''%'' # ps) cs)"
    by simp
  also have "\<dots> = (sql_like (CHR ''@'') ps (c # cs) \<or>
                    (\<exists>pre suf. cs = pre @ suf \<and> sql_like (CHR ''@'') ps suf))"
    by (simp only: Cons.IH)
  also have "\<dots> = (\<exists>pre suf. c # cs = pre @ suf \<and> sql_like (CHR ''@'') ps suf)"
    by (auto simp add: Cons_eq_append_conv)
  finally show ?case .
qed

lemma like_percent_only: "sql_like (CHR ''@'') ''%'' t"
  by (simp only: like_percent) auto

lemma like_contains:
  "sql_like (CHR ''@'') (''%'' @ escape term @ ''%'') t =
     (\<exists>pre sub post. t = pre @ sub @ post \<and> differ_only_in_case term sub)"
proof -
  have "sql_like (CHR ''@'') (''%'' @ escape term @ ''%'') t =
          (\<exists>pre suf. t = pre @ suf \<and> sql_like (CHR ''@'') (escape term @ ''%'') suf)"
    using like_percent [of "escape term @ ''%''" t] by simp
  also have "\<dots> = (\<exists>pre suf. t = pre @ suf \<and>
      (\<exists>sub t'. suf = sub @ t' \<and> differ_only_in_case term sub \<and> sql_like (CHR ''@'') ''%'' t'))"
    by (simp only: like_escape)
  also have "\<dots> = (\<exists>pre sub post. t = pre @ sub @ post \<and> differ_only_in_case term sub)"
    using like_percent_only by blast
  finally show ?thesis .
qed

text \<open>
  The term \<open>a\<close> matches a row whose text is \<open>A\<close>, which does not contain \<open>a\<close>: the
  engine's LIKE compares letters without regard to case.
\<close>

theorem search_term_literal_counterexample:
  "text_matches ''a'' r_A \<and> json_extract_text (msg r_A) = Some ''A'' \<and> \<not> sublist ''a'' ''A''"
  by (simp add: text_matches_def r_A_def json_extract_text_def escape_def lower_char_def
        sublist_code)

text \<open>
  C3, as the code has it. Every \<open>%\<close>, \<open>_\<close> and \<open>@\<close> of the term is prefixed with \<open>@\<close>,
  character by character, and the pattern \<open>%escaped%\<close> matches exactly the rows of type
  \<open>message\<close> whose extracted text contains the term as a substring up to the case of the
  letters A to Z; no character of the term acts as a wildcard.
\<close>

theorem search_term_escaped:
  "escape (a @ b) = escape a @ escape b
   \<and> escape [c] = (if c = CHR ''%'' \<or> c = CHR ''_'' \<or> c = CHR ''@'' then [CHR ''@'', c] else [c])
   \<and> text_matches term r =
       (type r = ''message'' \<and>
        (\<exists>t. json_extract_text (msg r) = Some t \<and>
             (\<exists>pre sub post. t = pre @ sub @ post \<and> differ_only_in_case term sub)))"
proof (intro conjI)
  show "escape (a @ b) = escape a @ escape b" by (rule escape_append)
  show "escape [c] = (if c = CHR ''%'' \<or> c = CHR ''_'' \<or> c = CHR ''@'' then [CHR ''@'', c] else [c])"
    by (simp add: escape_def)
  show "text_matches term r =
       (type r = ''message'' \<and>
        (\<exists>t. json_extract_text (msg r) = Some t \<and>
             (\<exists>pre sub post. t = pre @ sub @ post \<and> differ_only_in_case term sub)))"
    unfolding text_matches_def by (cases "json_extract_text (msg r)") (simp_all only: like_contains option.case, auto)
qed

theorem search_term_escaped_witness:
  "escape ''50%_@'' = ''50@%@_@@''
   \<and> text_matches ''50%'' (row_with_text ''now 50% off'')
   \<and> \<not> text_matches ''50%'' (row_with_text ''now 50 percent off'')
   \<and> \<not> text_matches ''a_c'' (row_with_text ''abc'')
   \<and> text_matches ''a_c'' (row_with_text ''xA_Cx'')"
  using search_term_escaped [of "''50%''" "''_@''" "CHR ''%''" "''50%''" "row_with_text ''now 50% off''"]
  by (simp add: escape_def text_matches_def row_with_text_def json_extract_text_def lower_char_def)

subsection \<open>The search cursor\<close>

lemma parsed_time: "get_prop (hd (parseSearchRowsToMessages [r])) ''time'' = JNum (time r)"
  by (simp add: parseSearchRowsToMessages_def Msg_def get_set_prop row_prop_def)

lemma parsed_rowid:
  "get_prop (hd (parseSearchRowsToMessages [r])) ''rowid'' = get_prop (msg r) ''rowid''"
  by (simp add: parseSearchRowsToMessages_def Msg_def get_set_prop row_prop_def JSON_parse_def)

lemma parse_length: "length (parseSearchRowsToMessages rows) = length rows"
  by (simp add: parseSearchRowsToMessages_def)

lemma parse_rev_hd:
  "rows \<noteq> [] \<Longrightarrow>
   rev (parseSearchRowsToMessages rows) =
     hd (parseSearchRowsToMessages [last rows]) # rev (parseSearchRowsToMessages (butlast rows))"
  by (induction rows rule: rev_induct) (simp_all add: parseSearchRowsToMessages_def)

lemma search_response:
  assumes "isEnabled st"
  shows "\<exists>r. search q st = Response r
     \<and> response.results r = rev (parseSearchRowsToMessages (search_rows q (database st)))
     \<and> (search_rows q (database st) = [] \<longrightarrow>
          response.lastTime r = JNum (- 1) \<and> response.lastId r = JNum (- 1))
     \<and> (search_rows q (database st) \<noteq> [] \<longrightarrow>
          response.lastTime r = JNum (time (last (search_rows q (database st))))
          \<and> response.lastId r = get_prop (msg (last (search_rows q (database st)))) ''rowid'')"
proof (cases "search_rows q (database st) = []")
  case True
  then show ?thesis using assms
    by (simp add: search_def Let_def parseSearchRowsToMessages_def)
next
  case False
  then show ?thesis using assms
    by (simp add: search_def Let_def parse_rev_hd parsed_time parsed_rowid)
qed

lemma st_example_rows:
  "messages (database st_example) =
     [\<lparr>rowid = 1, network = ''n1'', channel = ''#a'', time = 100, type = ''message'',
          msg = [(''text'', JStr ''one'')]\<rparr>,
      \<lparr>rowid = 2, network = ''n1'', channel = ''#a'', time = 300, type = ''message'',
          msg = [(''text'', JStr ''three'')]\<rparr>, r_needle]"
  "isEnabled st_example"
  by (simp_all add: st_example_def index_def insert_message_def Let_def msg_at_def st_on_def
        next_rowid_def JSON_stringify_def toLowerCase_def lower_char_def r_needle_def)

lemma needle_rows: "search_rows q_needle (database st_example) = [r_needle]"
  by (simp add: search_rows_def st_example_rows search_where_def text_matches_def in_scope_def
        before_cursor_def q_needle_def r_needle_def json_extract_text_def escape_def
        truthy_str_def truthy_num_def toLowerCase_def lower_char_def)

text \<open>
  C2, evaluated on the store of the spec's example (messages indexed at times 100, 300,
  200, the term found only in the one at 200, row id 3): the page holds that one row and
  \<open>lastTime\<close> is its time, but \<open>lastId\<close> is \<open>undefined\<close>, not the row id 3;
  \<open>parseSearchRowsToMessages\<close> copies \<open>row.id\<close>, which the SELECT list does not have, into
  \<open>id\<close>, and \<open>search\<close> reads \<open>rowid\<close> from the message.
\<close>

theorem search_cursor_lastId_undefined:
  "search_rows q_needle (database st_example) = [r_needle]
   \<and> rowid r_needle = 3 \<and> time r_needle = 200
   \<and> (case search q_needle st_example of
         Array xs \<Rightarrow> False
       | Response r \<Rightarrow> response.lastTime r = JNum 200 \<and> response.lastId r = JUndefined
                        \<and> length (response.results r) = 1)"
proof -
  from search_response [OF st_example_rows(2), of q_needle]
  obtain r where "search q_needle st_example = Response r"
    and "response.results r = rev (parseSearchRowsToMessages [r_needle])"
    and "response.lastTime r = JNum (time r_needle)"
    and "response.lastId r = get_prop (msg r_needle) ''rowid''"
    by (auto simp add: needle_rows)
  then show ?thesis
    by (simp add: needle_rows) (simp add: r_needle_def get_prop_def parseSearchRowsToMessages_def)
qed


subsection \<open>Paging through rows that share a time\<close>

lemma same_time_rows_props:
  assumes "r \<in> set same_time_rows"
  shows "time r = 5" and "type r = ''message''" and "msg r = [(''text'', JStr ''hello'')]"
  using assms by (auto simp add: same_time_rows_def)

lemma same_time_rows_length: "length same_time_rows = 101"
  by (simp add: same_time_rows_def)

lemma hello_like: "sql_like (CHR ''@'') (''%'' @ escape ''hello'' @ ''%'') ''hello''"
  by (simp add: escape_def)

lemma first_page_where:
  assumes "r \<in> set same_time_rows"
  shows "search_where q_hello r"
  using same_time_rows_props [OF assms] hello_like
  by (simp add: search_where_def text_matches_def in_scope_def before_cursor_def q_hello_def
        json_extract_text_def truthy_str_def truthy_num_def)

lemma second_page_where:
  assumes "r \<in> set same_time_rows"
  shows "\<not> search_where (q_hello\<lparr>query.lastTime := Some 5, query.lastId := None\<rparr>) r"
  using same_time_rows_props [OF assms]
  by (simp add: search_where_def before_cursor_def q_hello_def truthy_num_def sql_eq_def sql_lt_def)

lemma first_page_matching:
  "filter (search_where q_hello) (messages (database st_same_time)) = same_time_rows"
  using first_page_where by (simp add: st_same_time_def filter_id_conv)

lemma first_page_rows:
  "length (search_rows q_hello (database st_same_time)) = 100"
  "search_rows q_hello (database st_same_time) \<noteq> []"
  "last (search_rows q_hello (database st_same_time)) \<in> set same_time_rows"
proof -
  let ?rows = "search_rows q_hello (database st_same_time)"
  have eq: "?rows = take 100 (sort_key (\<lambda>r. (- time r, - rowid r)) same_time_rows)"
    by (simp add: search_rows_def first_page_matching)
  show len: "length ?rows = 100"
    by (simp add: eq same_time_rows_length)
  then show ne: "?rows \<noteq> []" by auto
  have "set ?rows \<subseteq> set same_time_rows"
    unfolding eq using set_take_subset [of 100 "sort_key (\<lambda>r. (- time r, - rowid r)) same_time_rows"]
    by simp
  with ne show "last ?rows \<in> set same_time_rows"
    using last_in_set by blast
qed

lemma second_page_rows:
  "search_rows (q_hello\<lparr>query.lastTime := Some 5, query.lastId := None\<rparr>) (database st_same_time) = []"
  using second_page_where by (simp add: search_rows_def st_same_time_def filter_False)

text \<open>
  C1, evaluated on a store with 101 matching rows that all have time 5: the first page
  delivers 100 rows with the cursor (5, \<open>undefined\<close>); the second query compares
  \<open>rowid < NULL\<close>, selects nothing and returns the cursor (-1, -1). The pages hold 100
  messages, so one matching row is never visited.
\<close>

theorem search_pagination_omits_row:
  "length (filter (search_where q_hello) (messages (database st_same_time))) = 101
   \<and> map_option (\<lambda>pages. length (concat pages)) (paginate 3 q_hello st_same_time) = Some 100"
proof -
  have en: "isEnabled st_same_time" by (simp add: st_same_time_def)
  from search_response [OF en, of q_hello]
  obtain r where r: "search q_hello st_same_time = Response r"
    and res: "length (response.results r) = 100"
    and lt: "response.lastTime r = JNum (time (last (search_rows q_hello (database st_same_time))))"
    and li: "response.lastId r = get_prop (msg (last (search_rows q_hello (database st_same_time)))) ''rowid''"
    using first_page_rows(1,2) by (auto simp add: parse_length)
  have lt5: "response.lastTime r = JNum 5"
    using lt same_time_rows_props(1) [OF first_page_rows(3)] by simp
  have liU: "response.lastId r = JUndefined"
    using li same_time_rows_props(3) [OF first_page_rows(3)] by (simp add: get_prop_def)
  have nq: "next_query q_hello r = q_hello\<lparr>query.lastTime := Some 5, query.lastId := None\<rparr>"
    by (simp add: next_query_def lt5 liU cursor_num_def)
  from search_response [OF en, of "q_hello\<lparr>query.lastTime := Some 5, query.lastId := None\<rparr>"]
  obtain r' where r': "search (q_hello\<lparr>query.lastTime := Some 5, query.lastId := None\<rparr>) st_same_time = Response r'"
    and res': "response.results r' = []"
    and s': "response.lastTime r' = JNum (- 1)" "response.lastId r' = JNum (- 1)"
    by (auto simp add: second_page_rows parseSearchRowsToMessages_def)
  have "paginate (Suc (Suc (Suc 0))) q_hello st_same_time = Some [response.results r, []]"
    by (simp add: r lt5 nq r' s' res')
  then have "map_option (\<lambda>pages. length (concat pages)) (paginate 3 q_hello st_same_time) = Some 100"
    by (simp add: numeral_3_eq_3 res)
  then show ?thesis
    by (simp add: first_page_matching same_time_rows_length)
qed

end
